theory Spec2Isabelle
  imports Complex_Main "HOL-Library.AList"
begin

section \<open>Policy configuration\<close>

text \<open>
  The verifier reads the policy document through \<open>load_hipaa_config\<close>; of that document
  it uses the ordered list \<open>config["categories"]\<close>, and of every entry the keys
  \<open>name\<close> and \<open>prohibited\<close> (read with \<open>cat.get("prohibited", False)\<close>, so the key may
  be absent). The configuration is a parameter of every operation below.
\<close>

record category_entry =
  cat_id :: int
  cat_name :: string
  cat_description :: string
  cat_examples :: "string list"
  cat_prohibited :: "bool option"

record config =
  categories :: "category_entry list"

definition get_prohibited_flag :: "category_entry \<Rightarrow> bool" where
  \<comment> \<open>\<open>cat.get("prohibited", False)\<close>\<close>
  "get_prohibited_flag cat = (case cat_prohibited cat of None \<Rightarrow> False | Some b \<Rightarrow> b)"

definition get_prohibited_categories :: "config \<Rightarrow> string list" where
  "get_prohibited_categories cfg = map cat_name (filter get_prohibited_flag (categories cfg))"

definition is_prohibited :: "config \<Rightarrow> string \<Rightarrow> bool" where
  "is_prohibited cfg category = (category \<in> set (get_prohibited_categories cfg))"

text \<open>
  Modelled from the spec: the policy document \<open>configs/hipaa-v1.json\<close> is not among the
  sources. The spec fixes exactly 18 categories with ids 1..18, all prohibited, in the
  order of the rule catalogue; the names are those of the rule catalogue in
  \<open>_build_rules\<close> and of the tests. Descriptions and examples play no part in verification
  and are left empty.
\<close>

definition catalogue_names :: "string list" where
  "catalogue_names =
    [''NAMES'', ''GEOGRAPHIC_SUBDIVISIONS'', ''DATES'', ''PHONE_NUMBERS'', ''FAX_NUMBERS'',
     ''EMAIL_ADDRESSES'', ''SSN'', ''MEDICAL_RECORD_NUMBERS'',
     ''HEALTH_PLAN_BENEFICIARY_NUMBERS'', ''ACCOUNT_NUMBERS'',
     ''CERTIFICATE_LICENSE_NUMBERS'', ''VEHICLE_IDENTIFIERS'', ''DEVICE_IDENTIFIERS'',
     ''WEB_URLS'', ''IP_ADDRESSES'', ''BIOMETRIC_IDENTIFIERS'', ''PHOTOGRAPHIC_IMAGES'',
     ''ANY_OTHER_UNIQUE_IDENTIFYING_NUMBER'']"

definition mk_category :: "int \<Rightarrow> string \<Rightarrow> category_entry" where
  "mk_category i n =
    \<lparr>cat_id = i, cat_name = n, cat_description = [], cat_examples = [],
     cat_prohibited = Some True\<rparr>"

definition hipaa_config :: config where
  "hipaa_config = \<lparr>categories = map2 mk_category [1..18] catalogue_names\<rparr>"

section \<open>Detections and rules (rules.py)\<close>

record PHIDetection =
  category :: string
  phi_value :: string
  start :: int
  end_offset :: int
  confidence :: real

record HIPAARule =
  rule_id :: string
  rule_name :: string
  rule_description :: string
  rule_categories :: "string list"
  prohibition_type :: string
  condition :: "string option"

definition absolute_prohibitions :: "(string \<times> string \<times> string) list" where
  "absolute_prohibitions =
    [(''R1'', ''NAMES'', ''Names must be removed''),
     (''R2'', ''GEOGRAPHIC_SUBDIVISIONS'', ''Geographic data smaller than state must be removed''),
     (''R3'', ''DATES'', ''Dates (except year) must be removed''),
     (''R4'', ''PHONE_NUMBERS'', ''Phone numbers must be removed''),
     (''R5'', ''FAX_NUMBERS'', ''Fax numbers must be removed''),
     (''R6'', ''EMAIL_ADDRESSES'', ''Email addresses must be removed''),
     (''R7'', ''SSN'', ''Social Security numbers must be removed''),
     (''R8'', ''MEDICAL_RECORD_NUMBERS'', ''Medical record numbers must be removed''),
     (''R9'', ''HEALTH_PLAN_BENEFICIARY_NUMBERS'', ''Health plan beneficiary numbers must be removed''),
     (''R10'', ''ACCOUNT_NUMBERS'', ''Account numbers must be removed''),
     (''R11'', ''CERTIFICATE_LICENSE_NUMBERS'', ''Certificate/license numbers must be removed''),
     (''R12'', ''VEHICLE_IDENTIFIERS'', ''Vehicle identifiers must be removed''),
     (''R13'', ''DEVICE_IDENTIFIERS'', ''Device identifiers must be removed''),
     (''R14'', ''WEB_URLS'', ''Web URLs must be removed''),
     (''R15'', ''IP_ADDRESSES'', ''IP addresses must be removed''),
     (''R16'', ''BIOMETRIC_IDENTIFIERS'', ''Biometric identifiers must be removed''),
     (''R17'', ''PHOTOGRAPHIC_IMAGES'', ''Full-face photos must be removed''),
     (''R18'', ''ANY_OTHER_UNIQUE_IDENTIFYING_NUMBER'', ''Other unique identifiers must be removed'')]"

definition absolute_rule :: "string \<times> string \<times> string \<Rightarrow> HIPAARule" where
  "absolute_rule t =
    (case t of (rid, cat, descr) \<Rightarrow>
      \<lparr>rule_id = rid, rule_name = ''Prohibition of '' @ cat, rule_description = descr,
       rule_categories = [cat], prohibition_type = ''absolute'', condition = None\<rparr>)"

definition conditional_rules :: "HIPAARule list" where
  "conditional_rules =
    [\<lparr>rule_id = ''R19'', rule_name = ''Age Over 89'',
      rule_description = ''Ages over 89 must be aggregated to 90+'',
      rule_categories = [''DATES''], prohibition_type = ''conditional'',
      condition = Some ''age > 89''\<rparr>,
     \<lparr>rule_id = ''R20'', rule_name = ''ZIP Code Population'',
      rule_description = ''ZIP codes with population < 20,000 must be zeroed'',
      rule_categories = [''GEOGRAPHIC_SUBDIVISIONS''], prohibition_type = ''conditional'',
      condition = Some ''zip_population < 20000''\<rparr>]"

definition build_rules :: "HIPAARule list" where
  "build_rules = map absolute_rule absolute_prohibitions @ conditional_rules"

definition get_rules_for_category :: "string \<Rightarrow> HIPAARule list" where
  "get_rules_for_category cat = filter (\<lambda>r. cat \<in> set (rule_categories r)) build_rules"

section \<open>The solver interface\<close>

text \<open>
  The verifier uses Z3 only on boolean constants, equations between booleans,
  negation and disjunction. An expression is evaluated under a truth assignment of the
  named booleans; a solver holds its assertions and the sizes saved by \<open>push\<close>;
  \<open>check\<close> answers \<open>sat\<close> exactly when some assignment of the booleans that occur
  satisfies every assertion, and \<open>unsat\<close> otherwise (on such propositional assertions
  the solver always decides).
\<close>

datatype z3expr =
    Z3_Bool string
  | Z3_BoolVal bool
  | Z3_Eq z3expr z3expr
  | Z3_Not z3expr
  | Z3_Or "z3expr list"

datatype check_result = sat | unsat

record solver =
  assertions :: "z3expr list"
  scopes :: "nat list"

definition Solver :: solver where
  "Solver = \<lparr>assertions = [], scopes = []\<rparr>"

definition solver_add :: "z3expr \<Rightarrow> solver \<Rightarrow> solver" where
  "solver_add e s = s\<lparr>assertions := assertions s @ [e]\<rparr>"

definition solver_push :: "solver \<Rightarrow> solver" where
  "solver_push s = s\<lparr>scopes := length (assertions s) # scopes s\<rparr>"

definition solver_pop :: "solver \<Rightarrow> solver" where
  \<comment> \<open>Z3 rejects a pop without an open scope; \<open>verify\<close> pops once, after its push.\<close>
  "solver_pop s =
    (case scopes s of
       [] \<Rightarrow> s
     | n # ns \<Rightarrow> \<lparr>assertions = take n (assertions s), scopes = ns\<rparr>)"

fun z3_eval :: "(string \<Rightarrow> bool) \<Rightarrow> z3expr \<Rightarrow> bool" where
  "z3_eval a (Z3_Bool x) = a x"
| "z3_eval a (Z3_BoolVal b) = b"
| "z3_eval a (Z3_Eq e1 e2) = (z3_eval a e1 = z3_eval a e2)"
| "z3_eval a (Z3_Not e) = (\<not> z3_eval a e)"
| "z3_eval a (Z3_Or es) = list_ex (z3_eval a) es"

fun z3_vars :: "z3expr \<Rightarrow> string list" where
  "z3_vars (Z3_Bool x) = [x]"
| "z3_vars (Z3_BoolVal b) = []"
| "z3_vars (Z3_Eq e1 e2) = z3_vars e1 @ z3_vars e2"
| "z3_vars (Z3_Not e) = z3_vars e"
| "z3_vars (Z3_Or es) = concat (map z3_vars es)"

definition satisfiable :: "z3expr list \<Rightarrow> bool" where
  "satisfiable es =
    list_ex (\<lambda>trues. list_all (z3_eval (\<lambda>x. x \<in> set trues)) es)
      (subseqs (remdups (concat (map z3_vars es))))"

definition solver_check :: "solver \<Rightarrow> check_result" where
  "solver_check s = (if satisfiable (assertions s) then sat else unsat)"

section \<open>Text formatting\<close>

text \<open>
  Python strings are modelled as \<open>string\<close>; the two non-ASCII marks of the compliant
  proof are written as their UTF-8 bytes. \<open>str_int\<close> is \<open>str\<close> on an integer (as the
  f-strings apply it), \<open>join\<close> is \<open>sep.join(lines)\<close>.
\<close>

definition digit_char :: "nat \<Rightarrow> char" where
  "digit_char n = ''0123456789'' ! (n mod 10)"

function str_nat :: "nat \<Rightarrow> string" where
  "str_nat n = (if n < 10 then [digit_char n] else str_nat (n div 10) @ [digit_char n])"
  by pat_completeness auto
termination
  by (relation "measure (\<lambda>n. n)") auto

declare str_nat.simps [simp del]

definition str_int :: "int \<Rightarrow> string" where
  "str_int i = (if i < 0 then ''-'' @ str_nat (nat (- i)) else str_nat (nat i))"

fun join :: "string \<Rightarrow> string list \<Rightarrow> string" where
  "join sep [] = []"
| "join sep [x] = x"
| "join sep (x # y # ys) = x @ sep @ join sep (y # ys)"

definition check_mark :: string where
  \<comment> \<open>U+2713\<close>
  "check_mark = [CHR 0xE2, CHR 0x9C, CHR 0x93]"

definition ballot_x :: string where
  \<comment> \<open>U+2717\<close>
  "ballot_x = [CHR 0xE2, CHR 0x9C, CHR 0x97]"

section \<open>Violation explanation (rules.py)\<close>

record rule_ref =
  ref_id :: string
  ref_name :: string
  ref_description :: string

record violation =
  v_category :: string
  v_value :: string
  v_location_start :: int
  v_location_end :: int
  v_confidence :: real
  violated_rules :: "rule_ref list"

record violation_explanation =
  num_violations :: nat
  violation_records :: "violation list"
  categories_violated :: "string list"

definition rule_ref_of :: "HIPAARule \<Rightarrow> rule_ref" where
  "rule_ref_of r =
    \<lparr>ref_id = rule_id r, ref_name = rule_name r, ref_description = rule_description r\<rparr>"

definition violation_of :: "PHIDetection \<Rightarrow> violation" where
  "violation_of detection =
    (let applicable_rules = get_rules_for_category (category detection)
     in \<lparr>v_category = category detection,
         v_value = phi_value detection,
         v_location_start = start detection,
         v_location_end = end_offset detection,
         v_confidence = confidence detection,
         violated_rules = map rule_ref_of applicable_rules\<rparr>)"

text \<open>
  \<open>categories_violated\<close> is \<open>list(set(v["category"] for v in violations))\<close>. The order in
  which Python iterates a set of strings follows the strings' hashes, which the
  interpreter salts per process; within one process it is a function of the sequence the
  set was built from. That function is the parameter \<open>list_set\<close> of the operations below;
  \<open>set_order_ok\<close> is what Python guarantees of it: every element once, nothing else.
\<close>

type_synonym set_order = "string list \<Rightarrow> string list"

definition set_order_ok :: "set_order \<Rightarrow> bool" where
  "set_order_ok list_set = (\<forall>xs. distinct (list_set xs) \<and> set (list_set xs) = set xs)"

definition create_violation_explanation ::
    "set_order \<Rightarrow> config \<Rightarrow> PHIDetection list \<Rightarrow> violation_explanation" where
  "create_violation_explanation list_set cfg detections =
    (let violations = map violation_of (filter (\<lambda>d. is_prohibited cfg (category d)) detections)
     in \<lparr>num_violations = length violations,
         violation_records = violations,
         categories_violated = list_set (map v_category violations)\<rparr>)"

section \<open>The verifier (verifier.py)\<close>

datatype ComplianceStatus = COMPLIANT | VIOLATION | ERROR

record VerificationResult =
  status :: ComplianceStatus
  entities :: "PHIDetection list"
  proof_text :: string
  violations :: "violation_explanation option"
  metadata :: "(string \<times> string) list"

definition create_z3_constraints ::
    "config \<Rightarrow> PHIDetection list \<Rightarrow> solver \<Rightarrow> (string \<times> z3expr) list \<times> solver" where
  "create_z3_constraints cfg detections s =
    (let category_vars =
           fold (\<lambda>c vars. AList.update c (Z3_Bool (c @ ''_detected'')) vars)
             (get_prohibited_categories cfg) [];
         detected_categories = set (map category detections)
     in (category_vars,
         fold (\<lambda>(c, var) s'.
                 if c \<in> detected_categories
                 then solver_add (Z3_Eq var (Z3_BoolVal True)) s'
                 else solver_add (Z3_Eq var (Z3_BoolVal False)) s')
           category_vars s))"

definition solver_result :: "config \<Rightarrow> PHIDetection list \<Rightarrow> check_result" where
  \<comment> \<open>lines 84-106 of \<open>verify\<close>: the outcome of \<open>solver.check()\<close>\<close>
  "solver_result cfg ents =
    (let (category_vars, s1) = create_z3_constraints cfg ents Solver;
         prohibited_categories = get_prohibited_categories cfg;
         prohibited_vars = List.map_filter (map_of category_vars) prohibited_categories;
         s2 = solver_push s1;
         s3 = (if prohibited_vars \<noteq> [] then solver_add (Z3_Not (Z3_Or prohibited_vars)) s2
               else s2);
         result = solver_check s3;
         s4 = solver_pop s3
     in result)"

definition violation_lines :: "violation \<Rightarrow> string list" where
  "violation_lines v =
    [''Category: '' @ v_category v,
     ''  Value: '' @ v_value v,
     ''  Position: '' @ str_int (v_location_start v) @ ''-'' @ str_int (v_location_end v)]
    @ map (\<lambda>r. ''  Violated: '' @ ref_id r @ '' - '' @ ref_description r) (violated_rules v)
    @ [[]]"

definition violation_proof :: "violation_explanation \<Rightarrow> string" where
  "violation_proof vs =
    join [CHR 0x0A]
      ([''HIPAA VIOLATION DETECTED'', replicate 40 CHR ''='']
       @ concat (map violation_lines (violation_records vs))
       @ [''Total violations: '' @ str_nat (num_violations vs),
          ''Categories: '' @ join '', '' (categories_violated vs)])"

definition compliant_header :: "string list" where
  "compliant_header =
    [''HIPAA COMPLIANT'',
     replicate 40 CHR ''='',
     ''No prohibited PHI identifiers detected.'',
     [],
     ''Verification passed for all 18 HIPAA Safe Harbor categories:'']"

definition category_line :: "PHIDetection list \<Rightarrow> string \<Rightarrow> string" where
  "category_line ents cat =
    (let detected = list_ex (\<lambda>e. category e = cat) ents;
         st = (if detected then ballot_x @ '' DETECTED'' else check_mark @ '' Clear'')
     in ''  '' @ cat @ '': '' @ st)"

definition compliant_proof :: "config \<Rightarrow> PHIDetection list \<Rightarrow> string" where
  "compliant_proof cfg ents =
    join [CHR 0x0A]
      (compliant_header @ map (category_line ents) (get_prohibited_categories cfg))"

definition verify :: "set_order \<Rightarrow> config \<Rightarrow> PHIDetection list \<Rightarrow> VerificationResult" where
  "verify list_set cfg ents =
    (if solver_result cfg ents = unsat
     then (let vs = create_violation_explanation list_set cfg ents
           in \<lparr>status = VIOLATION, entities = ents, proof_text = violation_proof vs,
               violations = Some vs, metadata = [(''solver_result'', ''unsat'')]\<rparr>)
     else \<lparr>status = COMPLIANT, entities = ents, proof_text = compliant_proof cfg ents,
           violations = None, metadata = [(''solver_result'', ''sat'')]\<rparr>)"

text \<open>
  \<open>verify_text\<close> calls an extractor supplied by the caller, inside a \<open>try\<close>. The body
  of the \<open>try\<close> yields a list of detections, on which \<open>verify\<close> has run, or it raises:
  the extractor itself, or \<open>verify\<close> on a returned value that is not a list of
  detections. \<open>except Exception\<close> catches the instances of \<open>Exception\<close> and lets pass
  what derives from \<open>BaseException\<close> only (\<open>KeyboardInterrupt\<close>, \<open>SystemExit\<close>,
  \<open>GeneratorExit\<close>).

  The handler evaluates \<open>str(e)\<close> twice, first for the proof and then for the metadata,
  and \<open>str(e)\<close> runs the \<open>__str__\<close> of the exception's class: each call returns a string
  or raises in its turn. A raised object is modelled by whether it is an instance of
  \<open>Exception\<close> and by the outcomes of these two calls. A result \<open>Inl\<close> of \<open>verify_text\<close>
  is an exception that reaches the caller.
\<close>

datatype py_exc =
  PyExc (is_Exception: bool) (str_first: "py_exc + string") (str_second: "py_exc + string")

datatype extractor_outcome = Returns "PHIDetection list" | Raises py_exc

type_synonym extractor = "string \<Rightarrow> extractor_outcome"

definition error_result :: "string \<Rightarrow> string \<Rightarrow> VerificationResult" where
  "error_result prf err =
    \<lparr>status = ERROR, entities = [], proof_text = prf, violations = None,
     metadata = [(''error'', err)]\<rparr>"

definition verify_text ::
    "set_order \<Rightarrow> config \<Rightarrow> string \<Rightarrow> extractor option \<Rightarrow> py_exc + VerificationResult" where
  "verify_text list_set cfg txt entity_extractor =
    (case entity_extractor of
       None \<Rightarrow>
         Inr (error_result
                ''No entity extractor provided. Use verify() with pre-extracted entities.''
                ''no_extractor'')
     | Some f \<Rightarrow>
         (case f txt of
            Returns ents \<Rightarrow> Inr (verify list_set cfg ents)
          | Raises e \<Rightarrow>
              if is_Exception e
              then (case str_first e of
                      Inl raised \<Rightarrow> Inl raised
                    | Inr msg1 \<Rightarrow>
                        (case str_second e of
                           Inl raised \<Rightarrow> Inl raised
                         | Inr msg2 \<Rightarrow>
                             Inr (error_result (''Error during verification: '' @ msg1) msg2)))
              else Inl e))"

definition batch_verify ::
    "set_order \<Rightarrow> config \<Rightarrow> PHIDetection list list \<Rightarrow> VerificationResult list" where
  "batch_verify list_set cfg documents = map (verify list_set cfg) documents"

section \<open>The wire constructor (verifier.py)\<close>

text \<open>
  \<open>verify_from_json\<close> works on what \<open>json.loads\<close> yields (a string argument is parsed
  first; any other argument is taken as it is). The operations it applies are dynamic:
  \<open>.get\<close> exists on a dict only, a \<open>for\<close> over a dict yields its keys and over a string
  its characters, and \<open>e["category"]\<close> needs a dict with that key. Each failure is the
  exception Python raises there. The keys of a \<open>JDict\<close> are distinct, as in a Python dict.
\<close>

datatype json =
    JNull
  | JBool bool
  | JInt int
  | JFloat real
  | JStr string
  | JList "json list"
  | JDict "(string \<times> json) list"

datatype py_error = AttributeError | TypeError | KeyError string

text \<open>
  The constructor \<open>PHIDetection(...)\<close> stores whatever values the payload holds; a
  \<open>raw_detection\<close> is the object so built.
\<close>

record raw_detection =
  raw_category :: json
  raw_value :: json
  raw_start :: json
  raw_end :: json
  raw_confidence :: json

definition dict_get :: "(string \<times> json) list \<Rightarrow> string \<Rightarrow> json \<Rightarrow> json" where
  \<comment> \<open>\<open>d.get(key, default)\<close>\<close>
  "dict_get d k dflt = (case map_of d k of None \<Rightarrow> dflt | Some v \<Rightarrow> v)"

fun get_entities :: "json \<Rightarrow> py_error + json" where
  \<comment> \<open>\<open>entities_json.get("entities", entities_json)\<close>\<close>
  "get_entities (JDict d) = Inr (dict_get d ''entities'' (JDict d))"
| "get_entities j = Inl AttributeError"

fun py_iter :: "json \<Rightarrow> py_error + json list" where
  \<comment> \<open>\<open>for e in ...\<close>\<close>
  "py_iter (JList xs) = Inr xs"
| "py_iter (JDict d) = Inr (map (\<lambda>kv. JStr (fst kv)) d)"
| "py_iter (JStr s) = Inr (map (\<lambda>c. JStr [c]) s)"
| "py_iter j = Inl TypeError"

fun raw_detection_of :: "json \<Rightarrow> py_error + raw_detection" where
  "raw_detection_of (JDict e) =
    (case map_of e ''category'' of
       None \<Rightarrow> Inl (KeyError ''category'')
     | Some c \<Rightarrow>
         Inr \<lparr>raw_category = c,
              raw_value = dict_get e ''value'' (JStr []),
              raw_start = dict_get e ''start'' (JInt 0),
              raw_end = dict_get e ''end'' (JInt 0),
              raw_confidence = dict_get e ''confidence'' (JFloat 1.0)\<rparr>)"
| "raw_detection_of j = Inl TypeError"

fun raw_detections :: "json list \<Rightarrow> py_error + raw_detection list" where
  \<comment> \<open>the list comprehension: the first element that raises ends it\<close>
  "raw_detections [] = Inr []"
| "raw_detections (e # es) =
    (case raw_detection_of e of
       Inl err \<Rightarrow> Inl err
     | Inr d \<Rightarrow> (case raw_detections es of Inl err \<Rightarrow> Inl err | Inr ds \<Rightarrow> Inr (d # ds)))"

definition entities_from_json :: "json \<Rightarrow> py_error + raw_detection list" where
  \<comment> \<open>lines 231-240 of \<open>verify_from_json\<close>\<close>
  "entities_from_json entities_json =
    (case get_entities entities_json of
       Inl err \<Rightarrow> Inl err
     | Inr x \<Rightarrow> (case py_iter x of Inl err \<Rightarrow> Inl err | Inr es \<Rightarrow> raw_detections es))"

text \<open>
  \<open>verify\<close> is modelled on detections whose fields have their declared types. A raw
  detection with such fields is that detection; for any other the model of
  \<open>verify_from_json\<close> gives no answer (\<open>None\<close>).
\<close>

fun json_number :: "json \<Rightarrow> real option" where
  "json_number (JInt i) = Some (of_int i)"
| "json_number (JFloat r) = Some r"
| "json_number j = None"

fun typed_detection :: "raw_detection \<Rightarrow> PHIDetection option" where
  "typed_detection d =
    (case (raw_category d, raw_value d, raw_start d, raw_end d, json_number (raw_confidence d)) of
       (JStr c, JStr v, JInt s, JInt e, Some p) \<Rightarrow>
         Some \<lparr>category = c, phi_value = v, start = s, end_offset = e, confidence = p\<rparr>
     | _ \<Rightarrow> None)"

fun typed_detections :: "raw_detection list \<Rightarrow> PHIDetection list option" where
  "typed_detections [] = Some []"
| "typed_detections (d # ds) =
    (case typed_detection d of
       None \<Rightarrow> None
     | Some x \<Rightarrow> (case typed_detections ds of None \<Rightarrow> None | Some xs \<Rightarrow> Some (x # xs)))"

definition verify_from_json ::
    "set_order \<Rightarrow> config \<Rightarrow> json \<Rightarrow> (py_error + VerificationResult) option" where
  "verify_from_json list_set cfg entities_json =
    (case entities_from_json entities_json of
       Inl err \<Rightarrow> Some (Inl err)
     | Inr raws \<Rightarrow>
         (case typed_detections raws of
            None \<Rightarrow> None
          | Some ents \<Rightarrow> Some (Inr (verify list_set cfg ents))))"

section \<open>The properties as the specification words them\<close>

text \<open>The direct set-membership rule of the specification.\<close>

definition membership_rule :: "config \<Rightarrow> PHIDetection list \<Rightarrow> ComplianceStatus" where
  "membership_rule cfg D =
    (if list_ex (\<lambda>d. category d \<in> set (get_prohibited_categories cfg)) D
     then VIOLATION else COMPLIANT)"

text \<open>The distinct elements of a list in the order of their first occurrence.\<close>

fun first_occurrence_order :: "string list \<Rightarrow> string list" where
  "first_occurrence_order [] = []"
| "first_occurrence_order (x # xs) = x # filter (\<lambda>y. y \<noteq> x) (first_occurrence_order xs)"

text \<open>The categories of the violating detections, in input order, repetitions kept.\<close>

definition violating_categories :: "config \<Rightarrow> PHIDetection list \<Rightarrow> string list" where
  "violating_categories cfg D =
    map category (filter (\<lambda>d. category d \<in> set (get_prohibited_categories cfg)) D)"

text \<open>
  Two iteration orders a set may have: the elements by last occurrence reversed, and
  the elements as \<open>remdups\<close> leaves them. Both satisfy \<open>set_order_ok\<close>.
\<close>

definition reversed_set_order :: set_order where
  "reversed_set_order xs = rev (remdups xs)"

text \<open>The rule id at a position of the catalogue, counted from 0: R1, R2, ...\<close>

definition catalogue_rule_id :: "nat \<Rightarrow> string" where
  "catalogue_rule_id k = ''R'' @ str_nat (Suc k)"

text \<open>
  A category line of the compliant proof that is marked clear: two spaces, the category,
  a colon, and the check mark U+2713 (in UTF-8) before the word Clear.
\<close>

definition clear_line :: "string \<Rightarrow> string" where
  "clear_line cat = ''  '' @ cat @ '': '' @ [CHR 0xE2, CHR 0x9C, CHR 0x93] @ '' Clear''"

text \<open>
  The compliant proof for a list of categories, character by character: the five header
  lines, beginning with the marker HIPAA COMPLIANT, then for every category a line break
  and its clear line.
\<close>

definition compliant_text :: "string list \<Rightarrow> string" where
  "compliant_text cats =
    ''HIPAA COMPLIANT\<newline>========================================\<newline>No prohibited PHI identifiers detected.\<newline>\<newline>Verification passed for all 18 HIPAA Safe Harbor categories:''
    @ concat (map (\<lambda>cat. [CHR 0x0A] @ clear_line cat) cats)"

text \<open>
  Exceptions as an extractor may raise them: an \<open>Exception\<close> and a \<open>SystemExit\<close> whose
  \<open>__str__\<close> returns the given message at each call, and an \<open>Exception\<close> whose \<open>__str__\<close>
  raises a \<open>RuntimeError\<close> with the given message.
\<close>

definition exception :: "string \<Rightarrow> py_exc" where
  "exception msg = PyExc True (Inr msg) (Inr msg)"

definition system_exit :: "string \<Rightarrow> py_exc" where
  "system_exit msg = PyExc False (Inr msg) (Inr msg)"

definition exception_str_raises :: "string \<Rightarrow> py_exc" where
  "exception_str_raises msg = PyExc True (Inl (exception msg)) (Inl (exception msg))"

text \<open>\<open>PHIDetection(category, value, start, end, confidence)\<close>\<close>

definition detection :: "string \<Rightarrow> string \<Rightarrow> int \<Rightarrow> int \<Rightarrow> real \<Rightarrow> PHIDetection" where
  "detection c v s e p =
    \<lparr>category = c, phi_value = v, start = s, end_offset = e, confidence = p\<rparr>"

section \<open>The solver's answer is the membership test\<close>

lemma z3_eval_cong_vars:
  "(\<And>x. x \<in> set (z3_vars e) \<Longrightarrow> a x = b x) \<Longrightarrow> z3_eval a e = z3_eval b e"
proof (induction e)
  case (Z3_Or es)
  then show ?case by (auto simp: list_ex_iff)
qed auto

lemma satisfiable_iff: "satisfiable es \<longleftrightarrow> (\<exists>a. \<forall>e\<in>set es. z3_eval a e)"
proof
  assume "satisfiable es"
  then show "\<exists>a. \<forall>e\<in>set es. z3_eval a e"
    unfolding satisfiable_def list_ex_iff list_all_iff by blast
next
  assume "\<exists>a. \<forall>e\<in>set es. z3_eval a e"
  then obtain a where a: "\<forall>e\<in>set es. z3_eval a e" by blast
  define vars where "vars = remdups (concat (map z3_vars es))"
  have "{x \<in> set vars. a x} \<in> Pow (set vars)" by blast
  then have "{x \<in> set vars. a x} \<in> set ` set (subseqs vars)"
    by (simp only: subseqs_powset)
  then obtain trues where t: "trues \<in> set (subseqs vars)" "set trues = {x \<in> set vars. a x}"
    by auto
  have "z3_eval (\<lambda>x. x \<in> set trues) e" if "e \<in> set es" for e
  proof -
    have "z3_eval (\<lambda>x. x \<in> set trues) e = z3_eval a e"
      by (rule z3_eval_cong_vars) (use that t in \<open>auto simp: vars_def\<close>)
    with a that show ?thesis by simp
  qed
  then show "satisfiable es"
    unfolding satisfiable_def list_ex_iff list_all_iff vars_def[symmetric] using t(1) by blast
qed

lemma assertions_fold_add:
  "assertions (fold (\<lambda>(c, var) s'. if P c then solver_add (f var) s' else solver_add (g var) s') xs s)
   = assertions s @ map (\<lambda>(c, var). if P c then f var else g var) xs"
  by (induction xs arbitrary: s) (auto simp: solver_add_def)

lemma map_of_fold_update:
  "map_of (fold (\<lambda>c vars. AList.update c (f c) vars) cs acc) c
   = (if c \<in> set cs then Some (f c) else map_of acc c)"
  by (induction cs arbitrary: acc) (auto simp: update_conv')

lemma distinct_fold_update:
  "distinct (map fst acc) \<Longrightarrow> distinct (map fst (fold (\<lambda>c vars. AList.update c (f c) vars) cs acc))"
  by (induction cs arbitrary: acc) (auto simp: distinct_update)

lemma category_vars_mem:
  "(k, v) \<in> set (fold (\<lambda>c vars. AList.update c (f c) vars) cs []) \<longleftrightarrow> k \<in> set cs \<and> v = f k"
proof -
  have "distinct (map fst (fold (\<lambda>c vars. AList.update c (f c) vars) cs []))"
    by (rule distinct_fold_update) simp
  then have "(k, v) \<in> set (fold (\<lambda>c vars. AList.update c (f c) vars) cs [])
      \<longleftrightarrow> map_of (fold (\<lambda>c vars. AList.update c (f c) vars) cs []) k = Some v"
    by simp
  then show ?thesis by (auto simp: map_of_fold_update)
qed

lemma map_filter_all_Some: "(\<And>x. x \<in> set xs \<Longrightarrow> g x = Some (f x)) \<Longrightarrow> List.map_filter g xs = map f xs"
  by (induction xs) (auto simp: List.map_filter_simps)

lemma solver_result_unsat_iff:
  "solver_result cfg D = unsat \<longleftrightarrow> (\<exists>d\<in>set D. is_prohibited cfg (category d))"
proof -
  define P where "P = get_prohibited_categories cfg"
  define f where "f = (\<lambda>c. Z3_Bool (c @ ''_detected''))"
  define cv where "cv = fold (\<lambda>c vars. AList.update c (f c) vars) P []"
  define det where "det = set (map category D)"
  define A where "A = map (\<lambda>(c, var). if c \<in> det then Z3_Eq var (Z3_BoolVal True) else Z3_Eq var (Z3_BoolVal False)) cv"
  define es where "es = A @ (if P \<noteq> [] then [Z3_Not (Z3_Or (map f P))] else [])"
  have pv: "List.map_filter (map_of cv) P = map f P"
    by (rule map_filter_all_Some) (simp add: cv_def map_of_fold_update)
  have res: "solver_result cfg D = (if satisfiable es then sat else unsat)"
    using pv
    unfolding solver_result_def create_z3_constraints_def Let_def es_def A_def cv_def f_def
      P_def det_def
    by (simp add: assertions_fold_add solver_check_def solver_push_def solver_add_def
        Solver_def)
  have inj: "f c = f c' \<longleftrightarrow> c = c'" for c c' by (simp add: f_def)
  have sat_iff: "satisfiable es \<longleftrightarrow> \<not> (\<exists>c\<in>set P. c \<in> det)"
  proof
    assume "satisfiable es"
    then obtain a where a: "\<forall>e\<in>set es. z3_eval a e" by (auto simp: satisfiable_iff)
    show "\<not> (\<exists>c\<in>set P. c \<in> det)"
    proof
      assume "\<exists>c\<in>set P. c \<in> det"
      then obtain c where c: "c \<in> set P" "c \<in> det" by blast
      then have "(c, f c) \<in> set cv" by (simp add: cv_def category_vars_mem)
      with c have "Z3_Eq (f c) (Z3_BoolVal True) \<in> set es" by (force simp: es_def A_def)
      with a have t: "z3_eval a (f c)" by auto
      from c have "Z3_Not (Z3_Or (map f P)) \<in> set es" by (auto simp: es_def)
      with a have "\<not> z3_eval a (Z3_Or (map f P))" by auto
      with t c show False by (auto simp: list_ex_iff)
    qed
  next
    assume n: "\<not> (\<exists>c\<in>set P. c \<in> det)"
    have "z3_eval (\<lambda>x. False) e" if "e \<in> set es" for e
    proof -
      from that consider "e \<in> set A" | "e = Z3_Not (Z3_Or (map f P))"
        by (auto simp: es_def split: if_splits)
      then show ?thesis
      proof cases
        case 1
        then obtain c v where cv: "(c, v) \<in> set cv"
          and e: "e = (if c \<in> det then Z3_Eq v (Z3_BoolVal True) else Z3_Eq v (Z3_BoolVal False))"
          by (auto simp: A_def)
        from cv have "c \<in> set P" "v = f c" by (auto simp: cv_def category_vars_mem)
        with n e show ?thesis by (auto simp: f_def)
      next
        case 2
        then show ?thesis by (auto simp: list_ex_iff f_def)
      qed
    qed
    then show "satisfiable es" by (auto simp: satisfiable_iff)
  qed
  show ?thesis unfolding res is_prohibited_def P_def[symmetric] sat_iff det_def by auto
qed

section \<open>Facts about the verifier\<close>

lemma hipaa_prohibited: "get_prohibited_categories hipaa_config = catalogue_names"
  by (simp add: get_prohibited_categories_def hipaa_config_def catalogue_names_def
      mk_category_def get_prohibited_flag_def upto_rec1)

lemma verify_status:
  "status (verify L cfg D) =
    (if \<exists>d\<in>set D. category d \<in> set (get_prohibited_categories cfg)
     then VIOLATION else COMPLIANT)"
  using solver_result_unsat_iff[of cfg D]
  by (cases "solver_result cfg D") (auto simp: verify_def Let_def is_prohibited_def)

lemma verify_violations:
  "violations (verify L cfg D) =
    (if \<exists>d\<in>set D. category d \<in> set (get_prohibited_categories cfg)
     then Some (create_violation_explanation L cfg D) else None)"
  using solver_result_unsat_iff[of cfg D]
  by (cases "solver_result cfg D") (auto simp: verify_def Let_def is_prohibited_def)

lemma verify_proof_compliant:
  "status (verify L cfg D) = COMPLIANT \<Longrightarrow> proof_text (verify L cfg D) = compliant_proof cfg D"
  by (cases "solver_result cfg D") (auto simp: verify_def Let_def)

lemma set_order_ok_reversed: "set_order_ok reversed_set_order"
  by (simp add: set_order_ok_def reversed_set_order_def)

lemma set_order_ok_remdups: "set_order_ok remdups"
  by (simp add: set_order_ok_def)

lemma set_first_occurrence_order: "set (first_occurrence_order xs) = set xs"
  by (induction xs) auto

lemma distinct_first_occurrence_order: "distinct (first_occurrence_order xs)"
  by (induction xs) (auto simp: set_first_occurrence_order)

lemma explanation_categories:
  "categories_violated (create_violation_explanation L cfg D) = L (violating_categories cfg D)"
  by (simp add: create_violation_explanation_def Let_def violating_categories_def
      is_prohibited_def violation_of_def comp_def)

lemma explanation_count:
  "num_violations (create_violation_explanation L cfg D)
    = length (filter (\<lambda>d. category d \<in> set (get_prohibited_categories cfg)) D)"
  by (simp add: create_violation_explanation_def Let_def is_prohibited_def)

section \<open>The decision rule\<close>

text \<open>
  C1. For every detection list, \<open>verify\<close> returns the status Violation exactly when some
  detection has a prohibited category, and Compliant otherwise. The answer of the solver
  on the constraints that \<open>verify\<close> builds (one boolean per prohibited category, fixed to
  whether the category is present, and the negated disjunction of the booleans) is
  \<open>unsat\<close> exactly in that case, so the status is the one the direct membership rule
  gives. For the 18-category policy the prohibited categories are the 18 catalogue names.
\<close>

theorem C1_decision:
  "(status (verify L cfg D) = VIOLATION
      \<longleftrightarrow> (\<exists>d\<in>set D. category d \<in> set (get_prohibited_categories cfg)))
   \<and> (status (verify L cfg D) = COMPLIANT
      \<longleftrightarrow> \<not> (\<exists>d\<in>set D. category d \<in> set (get_prohibited_categories cfg)))
   \<and> (solver_result cfg D = unsat
      \<longleftrightarrow> (\<exists>d\<in>set D. category d \<in> set (get_prohibited_categories cfg)))
   \<and> status (verify L cfg D) = membership_rule cfg D
   \<and> get_prohibited_categories hipaa_config = catalogue_names
   \<and> length catalogue_names = 18"
  using solver_result_unsat_iff[of cfg D]
  by (simp add: verify_status membership_rule_def list_ex_iff is_prohibited_def hipaa_prohibited)
     (simp add: catalogue_names_def)

text \<open>C1 at an SSN detection (Violation) and at a detection outside the policy (Compliant).\<close>

theorem C1_decision_witness:
  "status (verify remdups hipaa_config [detection ''SSN'' ''123-45-6789'' 0 11 1]) = VIOLATION
   \<and> status (verify remdups hipaa_config [detection ''DIAGNOSIS'' ''flu'' 0 3 1]) = COMPLIANT
   \<and> solver_result hipaa_config [detection ''SSN'' ''123-45-6789'' 0 11 1] = unsat"
  using C1_decision[of remdups hipaa_config "[detection ''SSN'' ''123-45-6789'' 0 11 1]"]
    C1_decision[of remdups hipaa_config "[detection ''DIAGNOSIS'' ''flu'' 0 3 1]"]
  by (simp add: detection_def hipaa_prohibited catalogue_names_def)

section \<open>The violation report\<close>

text \<open>
  C4. When \<open>verify\<close> returns Violation, \<open>num_violations\<close> of its report is the number of
  detections of the input whose category is prohibited, and so is the number of
  violation records: every such detection counts, whatever its category or span.
\<close>

theorem C4_count:
  "status (verify L cfg D) = VIOLATION \<Longrightarrow>
     map_option num_violations (violations (verify L cfg D))
       = Some (length (filter (\<lambda>d. category d \<in> set (get_prohibited_categories cfg)) D))
     \<and> map_option (\<lambda>vs. length (violation_records vs)) (violations (verify L cfg D))
       = Some (length (filter (\<lambda>d. category d \<in> set (get_prohibited_categories cfg)) D))"
  by (auto simp: verify_status verify_violations explanation_count
      create_violation_explanation_def Let_def is_prohibited_def split: if_splits)

text \<open>
  C4 at three NAMES detections, two of them identical and all three overlapping, next to
  one detection outside the policy: the count is 3.
\<close>

theorem C4_count_witness:
  "status (verify remdups hipaa_config
      [detection ''NAMES'' ''John Smith'' 0 10 0.95, detection ''NAMES'' ''John'' 0 4 0.9,
       detection ''NAMES'' ''John Smith'' 0 10 0.95, detection ''DIAGNOSIS'' ''flu'' 20 23 1])
     = VIOLATION
   \<and> map_option num_violations (violations (verify remdups hipaa_config
      [detection ''NAMES'' ''John Smith'' 0 10 0.95, detection ''NAMES'' ''John'' 0 4 0.9,
       detection ''NAMES'' ''John Smith'' 0 10 0.95, detection ''DIAGNOSIS'' ''flu'' 20 23 1]))
     = Some 3"
proof -
  have h: "status (verify remdups hipaa_config
      [detection ''NAMES'' ''John Smith'' 0 10 0.95, detection ''NAMES'' ''John'' 0 4 0.9,
       detection ''NAMES'' ''John Smith'' 0 10 0.95, detection ''DIAGNOSIS'' ''flu'' 20 23 1])
     = VIOLATION"
    by (simp add: verify_status hipaa_prohibited catalogue_names_def detection_def)
  show ?thesis
    using h C4_count[OF h]
    by (simp add: hipaa_prohibited catalogue_names_def detection_def numeral_3_eq_3)
qed

text \<open>
  C2, as the specification states it, fails. \<open>categories_violated\<close> is built by
  \<open>list(set(...))\<close>, and a set of strings has no order of its own: in a process where the
  set yields NAMES before SSN, the input SSN, NAMES is reported as NAMES, SSN, while
  the order of first occurrence is SSN, NAMES.
\<close>

theorem C2_order_counterexample:
  "set_order_ok reversed_set_order
   \<and> status (verify reversed_set_order hipaa_config
        [detection ''SSN'' ''123-45-6789'' 0 11 1, detection ''NAMES'' ''John'' 20 24 1])
      = VIOLATION
   \<and> map_option categories_violated (violations (verify reversed_set_order hipaa_config
        [detection ''SSN'' ''123-45-6789'' 0 11 1, detection ''NAMES'' ''John'' 20 24 1]))
      = Some [''NAMES'', ''SSN'']
   \<and> first_occurrence_order (violating_categories hipaa_config
        [detection ''SSN'' ''123-45-6789'' 0 11 1, detection ''NAMES'' ''John'' 20 24 1])
      = [''SSN'', ''NAMES'']"
  by (simp add: set_order_ok_reversed verify_status verify_violations explanation_categories
      violating_categories_def hipaa_prohibited catalogue_names_def detection_def
      reversed_set_order_def)

text \<open>
  C2, amended. When \<open>verify\<close> returns Violation, \<open>categories_violated\<close> holds every violated
  category exactly once and nothing else: it has no repetition, the same elements and the
  same length as the list of distinct violated categories in first-occurrence order. Its
  order is the iteration order of a Python set, which is not fixed.
\<close>

theorem C2_distinct_categories:
  "set_order_ok L \<Longrightarrow> status (verify L cfg D) = VIOLATION \<Longrightarrow>
    (\<exists>vs. violations (verify L cfg D) = Some vs
      \<and> distinct (categories_violated vs)
      \<and> set (categories_violated vs) = set (first_occurrence_order (violating_categories cfg D))
      \<and> length (categories_violated vs)
          = length (first_occurrence_order (violating_categories cfg D)))"
proof -
  assume ok: "set_order_ok L" and v: "status (verify L cfg D) = VIOLATION"
  let ?cs = "violating_categories cfg D"
  from v have vs: "violations (verify L cfg D) = Some (create_violation_explanation L cfg D)"
    by (auto simp: verify_status verify_violations split: if_splits)
  from ok have d: "distinct (L ?cs)" and s: "set (L ?cs) = set ?cs"
    by (auto simp: set_order_ok_def)
  have "length (L ?cs) = card (set ?cs)"
    using d s distinct_card by metis
  also have "\<dots> = length (first_occurrence_order ?cs)"
    using distinct_card[OF distinct_first_occurrence_order, of ?cs]
    by (simp add: set_first_occurrence_order)
  finally show ?thesis
    using vs d s by (simp add: explanation_categories set_first_occurrence_order)
qed

text \<open>C2 amended, at the input SSN, NAMES, SSN: two categories, each once.\<close>

theorem C2_distinct_categories_witness:
  "set_order_ok reversed_set_order
   \<and> status (verify reversed_set_order hipaa_config
        [detection ''SSN'' ''1'' 0 1 1, detection ''NAMES'' ''J'' 2 3 1,
         detection ''SSN'' ''2'' 4 5 1])
       = VIOLATION
   \<and> (\<exists>vs. violations (verify reversed_set_order hipaa_config
        [detection ''SSN'' ''1'' 0 1 1, detection ''NAMES'' ''J'' 2 3 1,
         detection ''SSN'' ''2'' 4 5 1])
          = Some vs
      \<and> distinct (categories_violated vs)
      \<and> set (categories_violated vs) = {''SSN'', ''NAMES''}
      \<and> length (categories_violated vs) = 2)"
proof -
  have h: "status (verify reversed_set_order hipaa_config
        [detection ''SSN'' ''1'' 0 1 1, detection ''NAMES'' ''J'' 2 3 1,
         detection ''SSN'' ''2'' 4 5 1])
       = VIOLATION"
    by (simp add: verify_status hipaa_prohibited catalogue_names_def detection_def)
  show ?thesis
    using h set_order_ok_reversed C2_distinct_categories[OF set_order_ok_reversed h]
    by (simp add: violating_categories_def hipaa_prohibited catalogue_names_def detection_def
        numeral_2_eq_2)
qed

section \<open>The compliant proof\<close>

lemma join_Cons_lines: "join sep (x # ys) = x @ concat (map (\<lambda>y. sep @ y) ys)"
  by (induction ys arbitrary: x) auto

lemma join_append_lines:
  "xs \<noteq> [] \<Longrightarrow> join sep (xs @ ys) = join sep xs @ concat (map (\<lambda>y. sep @ y) ys)"
  by (cases xs) (simp_all add: join_Cons_lines)

lemma join_compliant_header:
  "join [CHR 0x0A] compliant_header =
    ''HIPAA COMPLIANT\<newline>========================================\<newline>No prohibited PHI identifiers detected.\<newline>\<newline>Verification passed for all 18 HIPAA Safe Harbor categories:''"
  by code_simp

lemma category_line_clear:
  "\<not> (\<exists>e\<in>set D. category e = cat) \<Longrightarrow> category_line D cat = clear_line cat"
  by (simp add: category_line_def clear_line_def check_mark_def Let_def list_ex_iff)

lemma compliant_proof_clear:
  assumes "\<not> (\<exists>d\<in>set D. category d \<in> set (get_prohibited_categories cfg))"
  shows "compliant_proof cfg D = compliant_text (get_prohibited_categories cfg)"
proof -
  have m: "map (category_line D) (get_prohibited_categories cfg)
      = map clear_line (get_prohibited_categories cfg)"
    using assms by (intro map_cong refl category_line_clear) auto
  have ne: "compliant_header \<noteq> []"
    by (simp add: compliant_header_def)
  have "compliant_proof cfg D
      = join [CHR 0x0A] (compliant_header @ map clear_line (get_prohibited_categories cfg))"
    by (simp only: compliant_proof_def m)
  also have "\<dots> = join [CHR 0x0A] compliant_header
      @ concat (map (\<lambda>y. [CHR 0x0A] @ y) (map clear_line (get_prohibited_categories cfg)))"
    by (rule join_append_lines[OF ne])
  also have "\<dots> = compliant_text (get_prohibited_categories cfg)"
    by (simp only: join_compliant_header compliant_text_def map_map comp_def)
  finally show ?thesis .
qed

lemma compliant_text_marker: "take 15 (compliant_text cats) = ''HIPAA COMPLIANT''"
  by (simp add: compliant_text_def)

text \<open>
  C7. When \<open>verify\<close> returns Compliant, the proof text is the compliant header, which
  begins with the marker HIPAA COMPLIANT, followed by one line per prohibited category of
  the policy, in the order of the catalogue, each marked clear: for no category does the
  proof builder find a detection, so its DETECTED branch is never taken.
\<close>

theorem C7_compliant_proof:
  "status (verify L cfg D) = COMPLIANT \<Longrightarrow>
     proof_text (verify L cfg D) = compliant_text (get_prohibited_categories cfg)
     \<and> take 15 (proof_text (verify L cfg D)) = ''HIPAA COMPLIANT''
     \<and> list_all (\<lambda>cat. \<not> list_ex (\<lambda>e. category e = cat) D) (get_prohibited_categories cfg)
     \<and> list_all (\<lambda>cat. category_line D cat = clear_line cat) (get_prohibited_categories cfg)"
proof -
  assume c: "status (verify L cfg D) = COMPLIANT"
  then have n: "\<not> (\<exists>d\<in>set D. category d \<in> set (get_prohibited_categories cfg))"
    by (auto simp: verify_status split: if_splits)
  have "proof_text (verify L cfg D) = compliant_proof cfg D"
    using c by (rule verify_proof_compliant)
  then have p: "proof_text (verify L cfg D) = compliant_text (get_prohibited_categories cfg)"
    by (simp only: compliant_proof_clear[OF n])
  from n have "list_all (\<lambda>cat. \<not> list_ex (\<lambda>e. category e = cat) D) (get_prohibited_categories cfg)"
    by (auto simp: list_all_iff list_ex_iff)
  moreover from n have
    "list_all (\<lambda>cat. category_line D cat = clear_line cat) (get_prohibited_categories cfg)"
    by (auto simp: list_all_iff intro: category_line_clear)
  ultimately show ?thesis
    using p by (simp add: compliant_text_marker)
qed

text \<open>
  C7 at the 18-category policy and one detection outside it: the header and the 18 clear
  lines of the catalogue.
\<close>

theorem C7_compliant_proof_witness:
  "status (verify remdups hipaa_config [detection ''DIAGNOSIS'' ''flu'' 0 3 0.9]) = COMPLIANT
   \<and> proof_text (verify remdups hipaa_config [detection ''DIAGNOSIS'' ''flu'' 0 3 0.9])
       = compliant_text catalogue_names
   \<and> take 15 (proof_text (verify remdups hipaa_config [detection ''DIAGNOSIS'' ''flu'' 0 3 0.9]))
       = ''HIPAA COMPLIANT''
   \<and> length catalogue_names = 18"
proof -
  have h: "status (verify remdups hipaa_config [detection ''DIAGNOSIS'' ''flu'' 0 3 0.9]) = COMPLIANT"
    by (simp add: verify_status hipaa_prohibited catalogue_names_def detection_def)
  note r = C7_compliant_proof[OF h]
  have p: "proof_text (verify remdups hipaa_config [detection ''DIAGNOSIS'' ''flu'' 0 3 0.9])
      = compliant_text catalogue_names"
    using r[THEN conjunct1] by (simp only: hipaa_prohibited)
  have l: "length catalogue_names = 18"
    by (simp add: catalogue_names_def)
  show ?thesis
    using h p r[THEN conjunct2, THEN conjunct1] l by (intro conjI)
qed

text \<open>
  C8. On the empty detection list \<open>verify\<close> returns Compliant with no violation report
  (\<open>violations\<close> is \<open>None\<close>); its proof is the compliant header, which begins with the
  marker HIPAA COMPLIANT, and one clear line per prohibited category, 18 of them for the
  18-category policy.
\<close>

theorem C8_empty:
  "verify L cfg [] =
     \<lparr>status = COMPLIANT, entities = [],
      proof_text = compliant_text (get_prohibited_categories cfg),
      violations = None, metadata = [(''solver_result'', ''sat'')]\<rparr>
   \<and> take 15 (proof_text (verify L cfg [])) = ''HIPAA COMPLIANT''
   \<and> proof_text (verify L hipaa_config []) = compliant_text catalogue_names
   \<and> length catalogue_names = 18"
proof -
  have s: "solver_result c [] \<noteq> unsat" for c
    by (simp add: solver_result_unsat_iff)
  have p: "compliant_proof c [] = compliant_text (get_prohibited_categories c)" for c
    by (rule compliant_proof_clear) simp
  show ?thesis
    by (simp add: verify_def s p hipaa_prohibited compliant_text_marker)
       (simp add: catalogue_names_def)
qed

text \<open>C8 at the 18-category policy.\<close>

theorem C8_empty_witness:
  "status (verify remdups hipaa_config []) = COMPLIANT
   \<and> violations (verify remdups hipaa_config []) = None
   \<and> proof_text (verify remdups hipaa_config []) = compliant_text catalogue_names
   \<and> take 15 (proof_text (verify remdups hipaa_config [])) = ''HIPAA COMPLIANT''"
  using C8_empty[of remdups hipaa_config]
  by (simp add: hipaa_prohibited compliant_text_marker)

section \<open>Batches\<close>

text \<open>
  C9. \<open>batch_verify\<close> returns one result per input list, in the same order, the result at
  index \<open>i\<close> being \<open>verify\<close> of the list at index \<open>i\<close>; on the empty list it returns the
  empty list.
\<close>

theorem C9_batch:
  "length (batch_verify L cfg docs) = length docs
   \<and> (\<forall>i<length docs. batch_verify L cfg docs ! i = verify L cfg (docs ! i))
   \<and> batch_verify L cfg [] = []"
  by (simp add: batch_verify_def)

text \<open>C9 at a batch of two documents.\<close>

theorem C9_batch_witness:
  "length (batch_verify remdups hipaa_config [[], [detection ''SSN'' ''1'' 0 1 1]]) = 2
   \<and> batch_verify remdups hipaa_config [[], [detection ''SSN'' ''1'' 0 1 1]] ! 1
       = verify remdups hipaa_config [detection ''SSN'' ''1'' 0 1 1]
   \<and> batch_verify remdups hipaa_config [[], [detection ''SSN'' ''1'' 0 1 1]] ! 0
       = verify remdups hipaa_config []"
  using C9_batch[of remdups hipaa_config "[[], [detection ''SSN'' ''1'' 0 1 1]]"]
  by (simp add: nth_Cons')

section \<open>The verdict depends on the categories only\<close>

text \<open>
  C10. Two detection lists that agree position by position on the category give the same
  status, the same violation count and the same violated categories, whatever their values,
  spans and confidences.
\<close>

theorem C10_category_only:
  "map category D = map category D' \<Longrightarrow>
     status (verify L cfg D) = status (verify L cfg D')
     \<and> map_option num_violations (violations (verify L cfg D))
         = map_option num_violations (violations (verify L cfg D'))
     \<and> map_option categories_violated (violations (verify L cfg D))
         = map_option categories_violated (violations (verify L cfg D'))
     \<and> map_option (\<lambda>vs. set (categories_violated vs)) (violations (verify L cfg D))
         = map_option (\<lambda>vs. set (categories_violated vs)) (violations (verify L cfg D'))"
proof -
  assume eq: "map category D = map category D'"
  let ?P = "\<lambda>c. c \<in> set (get_prohibited_categories cfg)"
  have ex: "(\<exists>d\<in>set D. ?P (category d)) \<longleftrightarrow> (\<exists>d\<in>set D'. ?P (category d))"
  proof -
    have "(\<exists>d\<in>set D. ?P (category d)) \<longleftrightarrow> (\<exists>c\<in>set (map category D). ?P c)" by auto
    also have "\<dots> \<longleftrightarrow> (\<exists>c\<in>set (map category D'). ?P c)" by (simp only: eq)
    also have "\<dots> \<longleftrightarrow> (\<exists>d\<in>set D'. ?P (category d))" by auto
    finally show ?thesis .
  qed
  have vc: "violating_categories cfg D = violating_categories cfg D'"
  proof -
    have "violating_categories cfg X = filter ?P (map category X)" for X
      by (simp add: violating_categories_def filter_map comp_def)
    then show ?thesis by (simp add: eq)
  qed
  have cnt: "length (filter (\<lambda>d. ?P (category d)) D) = length (filter (\<lambda>d. ?P (category d)) D')"
    using vc by (metis violating_categories_def length_map)
  show ?thesis
    using ex by (simp add: verify_status verify_violations explanation_categories explanation_count vc cnt)
qed

text \<open>
  C10 at two SSN detections that differ in value, span and confidence (0.01 and 1.0): both
  are violations, with the same count.
\<close>

theorem C10_category_only_witness:
  "status (verify remdups hipaa_config [detection ''SSN'' ''123-45-6789'' 0 11 0.01])
     = status (verify remdups hipaa_config [detection ''SSN'' ''987-65-4321'' 40 51 1.0])
   \<and> status (verify remdups hipaa_config [detection ''SSN'' ''123-45-6789'' 0 11 0.01]) = VIOLATION
   \<and> map_option num_violations
        (violations (verify remdups hipaa_config [detection ''SSN'' ''123-45-6789'' 0 11 0.01]))
      = map_option num_violations
        (violations (verify remdups hipaa_config [detection ''SSN'' ''987-65-4321'' 40 51 1.0]))"
proof -
  have h: "map category [detection ''SSN'' ''123-45-6789'' 0 11 0.01]
      = map category [detection ''SSN'' ''987-65-4321'' 40 51 1.0]"
    by (simp add: detection_def)
  have v: "status (verify remdups hipaa_config [detection ''SSN'' ''123-45-6789'' 0 11 0.01]) = VIOLATION"
    by (simp add: verify_status hipaa_prohibited catalogue_names_def detection_def)
  show ?thesis
    using v C10_category_only[OF h, of remdups hipaa_config] by simp
qed

section \<open>The rules of a violation record\<close>

lemma prohibition_categories: "map (\<lambda>t. fst (snd t)) absolute_prohibitions = catalogue_names"
  by (simp add: absolute_prohibitions_def catalogue_names_def)

lemma prohibition_ids: "map fst absolute_prohibitions = map catalogue_rule_id [0..<18]"
  by code_simp

lemma length_catalogue: "length catalogue_names = 18"
  by (simp add: catalogue_names_def)

lemma length_prohibitions: "length absolute_prohibitions = 18"
  by (simp add: absolute_prohibitions_def)

lemma length_build_rules: "length build_rules = 20"
  by (simp add: build_rules_def length_prohibitions conditional_rules_def)

lemma build_rules_nth:
  assumes "k < 18"
  shows "build_rules ! k = absolute_rule (absolute_prohibitions ! k)"
    and "rule_categories (build_rules ! k) = [catalogue_names ! k]"
    and "rule_id (build_rules ! k) = catalogue_rule_id k"
    and "prohibition_type (build_rules ! k) = ''absolute''"
    and "build_rules ! k \<in> set build_rules"
    and "rule_name (build_rules ! k) = ''Prohibition of '' @ catalogue_names ! k"
    and "(rule_id (build_rules ! k), catalogue_names ! k, rule_description (build_rules ! k))
          = absolute_prohibitions ! k"
proof -
  show b: "build_rules ! k = absolute_rule (absolute_prohibitions ! k)"
    using assms by (simp add: build_rules_def nth_append length_prohibitions)
  have c: "catalogue_names ! k = fst (snd (absolute_prohibitions ! k))"
    using assms nth_map[of k absolute_prohibitions "\<lambda>t. fst (snd t)"]
    by (simp add: prohibition_categories length_prohibitions)
  then show "rule_categories (build_rules ! k) = [catalogue_names ! k]"
    by (simp add: b absolute_rule_def split: prod.splits)
  from c show "rule_name (build_rules ! k) = ''Prohibition of '' @ catalogue_names ! k"
    by (simp add: b absolute_rule_def split: prod.splits)
  from c show "(rule_id (build_rules ! k), catalogue_names ! k, rule_description (build_rules ! k))
      = absolute_prohibitions ! k"
    by (simp add: b absolute_rule_def split: prod.splits)
  have "catalogue_rule_id k = fst (absolute_prohibitions ! k)"
    using assms nth_map[of k absolute_prohibitions fst]
    by (simp add: prohibition_ids length_prohibitions)
  then show "rule_id (build_rules ! k) = catalogue_rule_id k"
    by (simp add: b absolute_rule_def split: prod.splits)
  show "prohibition_type (build_rules ! k) = ''absolute''"
    by (simp add: b absolute_rule_def split: prod.splits)
  have "k < length build_rules"
    using assms by (simp add: length_build_rules)
  then show "build_rules ! k \<in> set build_rules" by simp
qed

text \<open>
  C6. Under a policy whose prohibited categories are catalogue categories (as the
  18-category policy is), the violation record built for a detection with a prohibited
  category is in the report, and its rule list is not empty: it holds the rule at the
  category's position in the catalogue, which is an absolute prohibition of exactly that
  category and has the id of that position. The entry of the rule in the record carries
  that id, the name of the prohibition and the description of the catalogue. The first 18
  rules have the ids R1 to R18 and the 18 catalogue categories, in this order.
\<close>

theorem C6_rules:
  "set (get_prohibited_categories cfg) \<subseteq> set catalogue_names \<Longrightarrow>
   d \<in> set D \<Longrightarrow> is_prohibited cfg (category d) \<Longrightarrow>
     violation_of d \<in> set (violation_records (create_violation_explanation L cfg D))
     \<and> map_option violation_records (violations (verify L cfg D))
         = Some (violation_records (create_violation_explanation L cfg D))
     \<and> v_category (violation_of d) = category d
     \<and> violated_rules (violation_of d) \<noteq> []
     \<and> (\<exists>k. k < 18 \<and> category d = catalogue_names ! k
          \<and> rule_ref_of (build_rules ! k) \<in> set (violated_rules (violation_of d))
          \<and> rule_categories (build_rules ! k) = [category d]
          \<and> prohibition_type (build_rules ! k) = ''absolute''
          \<and> rule_id (build_rules ! k) = catalogue_rule_id k
          \<and> (\<exists>r\<in>set (violated_rules (violation_of d)).
                ref_id r = catalogue_rule_id k
                \<and> ref_name r = ''Prohibition of '' @ category d
                \<and> (ref_id r, category d, ref_description r) = absolute_prohibitions ! k))
     \<and> map rule_id (take 18 build_rules) = map catalogue_rule_id [0..<18]
     \<and> map rule_categories (take 18 build_rules) = map (\<lambda>c. [c]) catalogue_names
     \<and> map rule_id (take 18 build_rules)
         = [''R1'', ''R2'', ''R3'', ''R4'', ''R5'', ''R6'', ''R7'', ''R8'', ''R9'', ''R10'',
            ''R11'', ''R12'', ''R13'', ''R14'', ''R15'', ''R16'', ''R17'', ''R18'']"
proof -
  assume sub: "set (get_prohibited_categories cfg) \<subseteq> set catalogue_names"
    and d: "d \<in> set D" and p: "is_prohibited cfg (category d)"
  from sub p have "category d \<in> set catalogue_names" by (auto simp: is_prohibited_def)
  then obtain k where k: "k < 18" "catalogue_names ! k = category d"
    by (auto simp: in_set_conv_nth length_catalogue)
  note b = build_rules_nth[OF k(1)]
  have mem: "build_rules ! k \<in> set (get_rules_for_category (category d))"
    using b(2,5) k(2) by (simp add: get_rules_for_category_def)
  then have ref: "rule_ref_of (build_rules ! k) \<in> set (violated_rules (violation_of d))"
    by (simp add: violation_of_def Let_def)
  have rec: "violation_of d \<in> set (violation_records (create_violation_explanation L cfg D))"
    using d p by (simp add: create_violation_explanation_def Let_def)
  have vio: "map_option violation_records (violations (verify L cfg D))
         = Some (violation_records (create_violation_explanation L cfg D))"
    using d p by (auto simp: verify_violations is_prohibited_def)
  have ids: "map rule_id (take 18 build_rules) = map catalogue_rule_id [0..<18]"
  proof (rule nth_equalityI)
    show "length (map rule_id (take 18 build_rules)) = length (map catalogue_rule_id [0..<18])"
      by (simp add: length_build_rules)
    fix i assume "i < length (map rule_id (take 18 build_rules))"
    then have i: "i < 18" by simp
    then show "map rule_id (take 18 build_rules) ! i = map catalogue_rule_id [0..<18] ! i"
      using build_rules_nth(3)[OF i] by (simp add: length_build_rules)
  qed
  have cats: "map rule_categories (take 18 build_rules) = map (\<lambda>c. [c]) catalogue_names"
  proof (rule nth_equalityI)
    show "length (map rule_categories (take 18 build_rules))
        = length (map (\<lambda>c. [c]) catalogue_names)"
      by (simp add: length_build_rules length_catalogue)
    fix i assume "i < length (map rule_categories (take 18 build_rules))"
    then have i: "i < 18" by simp
    then show "map rule_categories (take 18 build_rules) ! i = map (\<lambda>c. [c]) catalogue_names ! i"
      using build_rules_nth(2)[OF i] by (simp add: length_build_rules length_catalogue)
  qed
  from ref have ne: "violated_rules (violation_of d) \<noteq> []" by auto
  have entry: "\<exists>r\<in>set (violated_rules (violation_of d)).
      ref_id r = catalogue_rule_id k
      \<and> ref_name r = ''Prohibition of '' @ category d
      \<and> (ref_id r, category d, ref_description r) = absolute_prohibitions ! k"
    using ref b(3,6,7) k(2) by (intro bexI[of _ "rule_ref_of (build_rules ! k)"])
      (simp_all add: rule_ref_of_def)
  have lit: "map rule_id (take 18 build_rules)
      = [''R1'', ''R2'', ''R3'', ''R4'', ''R5'', ''R6'', ''R7'', ''R8'', ''R9'', ''R10'',
         ''R11'', ''R12'', ''R13'', ''R14'', ''R15'', ''R16'', ''R17'', ''R18'']"
    by (simp add: build_rules_def absolute_prohibitions_def absolute_rule_def)
  have cat: "v_category (violation_of d) = category d"
    by (simp add: violation_of_def Let_def)
  from k b(2,3,4) ref entry have ex: "\<exists>k. k < 18 \<and> category d = catalogue_names ! k
          \<and> rule_ref_of (build_rules ! k) \<in> set (violated_rules (violation_of d))
          \<and> rule_categories (build_rules ! k) = [category d]
          \<and> prohibition_type (build_rules ! k) = ''absolute''
          \<and> rule_id (build_rules ! k) = catalogue_rule_id k
          \<and> (\<exists>r\<in>set (violated_rules (violation_of d)).
                ref_id r = catalogue_rule_id k
                \<and> ref_name r = ''Prohibition of '' @ category d
                \<and> (ref_id r, category d, ref_description r) = absolute_prohibitions ! k)"
    by (intro exI[of _ k]) simp
  show ?thesis
    using rec vio cat ne ex ids cats lit by (simp only: simp_thms)
qed

text \<open>C6 at an SSN detection: position 6 of the catalogue, rule R7.\<close>

theorem C6_rules_witness:
  "set (get_prohibited_categories hipaa_config) \<subseteq> set catalogue_names
   \<and> is_prohibited hipaa_config ''SSN''
   \<and> violated_rules (violation_of (detection ''SSN'' ''123-45-6789'' 0 11 0.99))
       = [\<lparr>ref_id = ''R7'', ref_name = ''Prohibition of SSN'',
           ref_description = ''Social Security numbers must be removed''\<rparr>]
   \<and> (\<exists>k. k < 18 \<and> ''SSN'' = catalogue_names ! k
          \<and> rule_ref_of (build_rules ! k)
               \<in> set (violated_rules (violation_of (detection ''SSN'' ''123-45-6789'' 0 11 0.99)))
          \<and> rule_categories (build_rules ! k) = [''SSN'']
          \<and> prohibition_type (build_rules ! k) = ''absolute''
          \<and> rule_id (build_rules ! k) = catalogue_rule_id k
          \<and> (\<exists>r\<in>set (violated_rules (violation_of (detection ''SSN'' ''123-45-6789'' 0 11 0.99))).
                ref_id r = catalogue_rule_id k
                \<and> ref_name r = ''Prohibition of SSN''
                \<and> (ref_id r, ''SSN'', ref_description r) = absolute_prohibitions ! k))
   \<and> catalogue_names ! 6 = ''SSN'' \<and> catalogue_rule_id 6 = ''R7''"
proof -
  have s: "set (get_prohibited_categories hipaa_config) \<subseteq> set catalogue_names"
    by (simp add: hipaa_prohibited)
  have p: "is_prohibited hipaa_config (category (detection ''SSN'' ''123-45-6789'' 0 11 0.99))"
    by (simp add: is_prohibited_def hipaa_prohibited catalogue_names_def detection_def)
  have m: "detection ''SSN'' ''123-45-6789'' 0 11 0.99
      \<in> set [detection ''SSN'' ''123-45-6789'' 0 11 0.99]"
    by simp
  have e: "catalogue_names ! 6 = ''SSN''" "catalogue_rule_id 6 = ''R7''"
    by (simp_all add: catalogue_names_def catalogue_rule_id_def str_nat.simps digit_char_def)
  have c: "category (detection ''SSN'' ''123-45-6789'' 0 11 0.99) = ''SSN''"
    by (simp add: detection_def)
  have v: "violated_rules (violation_of (detection ''SSN'' ''123-45-6789'' 0 11 0.99))
       = [\<lparr>ref_id = ''R7'', ref_name = ''Prohibition of SSN'',
           ref_description = ''Social Security numbers must be removed''\<rparr>]"
    by (simp add: violation_of_def detection_def get_rules_for_category_def build_rules_def
        absolute_prohibitions_def absolute_rule_def conditional_rules_def rule_ref_of_def)
  show ?thesis
    using s p e v C6_rules[OF s m p, of remdups] unfolding c
    by simp
qed

section \<open>Verification of a text\<close>

text \<open>
  C3, as the specification states it, fails in its last part. \<open>verify_text\<close> catches
  \<open>Exception\<close>; an extractor that raises outside that class (here \<open>SystemExit\<close> with
  a message, as \<open>sys.exit\<close> raises it) is not caught, and the exception reaches the caller.
\<close>

theorem C3_escape_counterexample:
  "verify_text remdups hipaa_config ''x''
      (Some (\<lambda>t. Raises (system_exit ''model unavailable'')))
    = Inl (system_exit ''model unavailable'')"
  by (simp add: verify_text_def system_exit_def)

text \<open>
  The handler itself is not guarded: when the \<open>__str__\<close> of a caught exception raises,
  what it raises reaches the caller.
\<close>

lemma verify_text_str_raises:
  "verify_text L cfg t (Some (\<lambda>t. Raises (exception_str_raises ''no message'')))
    = Inl (exception ''no message'')"
  by (simp add: verify_text_def exception_str_raises_def)

text \<open>
  C3, amended. Without an extractor \<open>verify_text\<close> returns an Error result whose metadata
  has \<open>error\<close> = \<open>no_extractor\<close>. With an extractor that raises an \<open>Exception\<close> whose
  message \<open>str(e)\<close> is available it returns an Error result whose proof ends with that
  message and whose metadata has it as \<open>error\<close>. With an extractor that returns detections
  it returns \<open>verify\<close> of them. Whenever the extractor returns, or raises an \<open>Exception\<close>
  whose message is available at both calls of \<open>str(e)\<close>, \<open>verify_text\<close> returns a result
  and raises nothing; what the extractor raises outside \<open>Exception\<close> reaches the caller.
\<close>

theorem C3_verify_text:
  "(\<exists>r. verify_text L cfg t None = Inr r \<and> status r = ERROR
        \<and> map_of (metadata r) ''error'' = Some ''no_extractor''
        \<and> entities r = [] \<and> violations r = None)
   \<and> (f t = Raises e \<and> is_Exception e \<and> str_first e = Inr msg1 \<and> str_second e = Inr msg2 \<longrightarrow>
        (\<exists>r. verify_text L cfg t (Some f) = Inr r \<and> status r = ERROR
           \<and> proof_text r = ''Error during verification: '' @ msg1
           \<and> map_of (metadata r) ''error'' = Some msg2
           \<and> entities r = [] \<and> violations r = None))
   \<and> (f t = Returns ents \<longrightarrow> verify_text L cfg t (Some f) = Inr (verify L cfg ents))
   \<and> ((\<forall>x. f t = Raises x \<longrightarrow>
          is_Exception x \<and> (\<exists>m. str_first x = Inr m) \<and> (\<exists>m. str_second x = Inr m)) \<longrightarrow>
        (\<exists>r. verify_text L cfg t (Some f) = Inr r))
   \<and> (f t = Raises e \<and> \<not> is_Exception e \<longrightarrow> verify_text L cfg t (Some f) = Inl e)"
  by (auto simp: verify_text_def error_result_def split: extractor_outcome.splits sum.splits)

text \<open>
  C3 amended, at no extractor, at an extractor that raises an \<open>Exception\<close> with the message
  boom, and at one that returns.
\<close>

theorem C3_verify_text_witness:
  "(\<exists>r. verify_text remdups hipaa_config ''anything'' None = Inr r \<and> status r = ERROR
        \<and> map_of (metadata r) ''error'' = Some ''no_extractor'')
   \<and> is_Exception (exception ''boom'') \<and> str_first (exception ''boom'') = Inr ''boom''
   \<and> str_second (exception ''boom'') = Inr ''boom''
   \<and> (\<exists>r. verify_text remdups hipaa_config ''x'' (Some (\<lambda>t. Raises (exception ''boom''))) = Inr r
        \<and> status r = ERROR
        \<and> proof_text r = ''Error during verification: boom''
        \<and> map_of (metadata r) ''error'' = Some ''boom'')
   \<and> verify_text remdups hipaa_config ''x'' (Some (\<lambda>t. Returns []))
        = Inr (verify remdups hipaa_config [])"
proof -
  have e: "is_Exception (exception ''boom'')" "str_first (exception ''boom'') = Inr ''boom''"
    "str_second (exception ''boom'') = Inr ''boom''"
    by (simp_all add: exception_def)
  show ?thesis
    using e
      C3_verify_text[of remdups hipaa_config "''anything''" "\<lambda>t. Raises (exception ''boom'')"
        "exception ''boom''" "''boom''" "''boom''" "[]"]
      C3_verify_text[of remdups hipaa_config "''x''" "\<lambda>t. Raises (exception ''boom'')"
        "exception ''boom''" "''boom''" "''boom''" "[]"]
      C3_verify_text[of remdups hipaa_config "''x''" "\<lambda>t. Returns []"
        "exception ''boom''" "''boom''" "''boom''" "[]"]
    by auto
qed

section \<open>The wire constructor\<close>

lemma entities_from_json_list: "entities_from_json (JList es) = Inl AttributeError"
  by (simp add: entities_from_json_def)

text \<open>
  An object with the key \<open>entities\<close> is accepted, and the fields a record omits get the
  defaults: empty value, start 0, end 0, confidence 1.0. Other shapes fail with the exception
  of the first operation that does not apply, or with \<open>KeyError\<close> for a missing category.
\<close>

lemma verify_from_json_entities_object:
  "verify_from_json L cfg
      (JDict [(''entities'', JList [JDict [(''category'', JStr ''NAMES'')]])])
     = Some (Inr (verify L cfg [detection ''NAMES'' [] 0 0 1.0]))"
  by (simp add: verify_from_json_def entities_from_json_def dict_get_def detection_def)

lemma verify_from_json_wrong_shapes:
  "verify_from_json L cfg (JDict [(''items'', JList [])]) = Some (Inl TypeError)"
  "verify_from_json L cfg (JInt 3) = Some (Inl AttributeError)"
  "verify_from_json L cfg (JDict [(''entities'', JList [JDict [(''value'', JStr ''x'')]])])
     = Some (Inl (KeyError ''category''))"
  by (simp_all add: verify_from_json_def entities_from_json_def dict_get_def)

text \<open>
  C5. The specification has \<open>verify_from_json\<close> accept a bare list of records, and so
  does the repository's test \<open>test_verify_from_json_direct_list\<close>; the code rejects it.
  On the list of that test the call \<open>entities_json.get("entities", entities_json)\<close> raises
  \<open>AttributeError\<close>, a list having no \<open>get\<close>. By the same line the empty object, which
  has neither of the two shapes, is taken for an empty list of detections and verified as
  Compliant.
\<close>

theorem C5_direct_list_raises:
  "entities_from_json
      (JList [JDict [(''category'', JStr ''EMAIL_ADDRESSES''), (''value'', JStr ''test@example.com''),
                     (''start'', JInt 0), (''end'', JInt 16), (''confidence'', JFloat 0.88)]])
     = Inl AttributeError
   \<and> verify_from_json L cfg
      (JList [JDict [(''category'', JStr ''EMAIL_ADDRESSES''), (''value'', JStr ''test@example.com''),
                     (''start'', JInt 0), (''end'', JInt 16), (''confidence'', JFloat 0.88)]])
     = Some (Inl AttributeError)
   \<and> verify_from_json L cfg (JDict []) = Some (Inr (verify L cfg []))"
  by (simp add: verify_from_json_def entities_from_json_def dict_get_def)

end
